theory Spec2Isabelle
  imports Complex_Main "HOL-Library.Sublist"
begin

section \<open>Q-recsys: the hybrid two-stage recommender of \<open>qrecsys.py\<close>\<close>

text \<open>
  The development follows \<open>src/qrecsys.py\<close>: the schema checks of \<open>preprocess\<close>, the
  brute-force nearest-neighbour search \<open>Recommender._find_nearest\<close> and the pipeline
  \<open>Recommender.recommend\<close>.

  Exceptions are values of the type \<open>error\<close>; a function that may raise returns
  \<open>error + 'a\<close> with \<open>Inl\<close> for the exception.
\<close>

datatype error = FileNotFoundError | ColumnNotFoundError | KeyError | IndexError | ValueError

subsection \<open>Python slices\<close>

text \<open>
  \<open>xs[:k]\<close> never raises. For \<open>k \<ge> 0\<close> it is the first \<open>k\<close> elements (all of them when
  \<open>k\<close> exceeds the length); for \<open>k < 0\<close> it drops the last \<open>-k\<close> elements.
\<close>

definition py_take :: "int \<Rightarrow> 'a list \<Rightarrow> 'a list" where
  "py_take k xs =
     (if 0 \<le> k then take (nat k) xs else take (nat (int (length xs) + k)) xs)"

subsection \<open>Floating-point arithmetic\<close>

text \<open>
  The embedding matrices are read as arrays of binary64 numbers, and the distance
  computation rounds after every operation. \<open>fl\<close> rounds a real to the nearest number
  with a significand of 53 bits, ties to the even significand. The exponent range is not
  bounded here: overflow to infinity and subnormal numbers are not modelled, and neither
  is the binary32 storage of arrays of that type.
\<close>

definition round_half_even :: "real \<Rightarrow> int" where
  "round_half_even r =
     (let f = \<lfloor>r\<rfloor>
      in if r - of_int f < 1 / 2 then f
         else if 1 / 2 < r - of_int f then f + 1
         else if even f then f else f + 1)"

definition fl :: "real \<Rightarrow> real" where
  "fl x =
     (if x = 0 then 0
      else let e = \<lfloor>log 2 \<bar>x\<bar>\<rfloor> - 52
           in of_int (round_half_even (x / 2 powr of_int e)) * 2 powr of_int e)"

subsection \<open>The numeric library\<close>

type_synonym vec = "real list"
type_synonym matrix = "real list list"

text \<open>
  A matrix is a list of rows. \<open>array2d\<close> holds of the lists that are dense
  two-dimensional arrays with at least one row and one column, which is what
  \<open>check_array\<close> of scikit-learn accepts; \<open>check_pairwise_arrays\<close> also asks for the
  same number of columns in both arguments.
\<close>

definition array2d :: "matrix \<Rightarrow> bool" where
  "array2d m \<longleftrightarrow> m \<noteq> [] \<and> hd m \<noteq> [] \<and> list_all (\<lambda>row. length row = length (hd m)) m"

definition check_pairwise_arrays :: "matrix \<Rightarrow> matrix \<Rightarrow> bool" where
  "check_pairwise_arrays x y \<longleftrightarrow> array2d x \<and> array2d y \<and> length (hd x) = length (hd y)"

text \<open>
  \<open>sklearn.metrics.pairwise.euclidean_distances(x, y)\<close> on binary64 arrays computes
  \<open>sqrt(max(0, -2 x.y + x.x + y.y))\<close>: the dot products first, then the two additions
  in this order, each operation rounded. The dot product accumulates from left to
  right. The result is the computed distance; for rows that nearly agree it differs from
  \<open>exact_distance\<close>, the distance of the real vectors.
\<close>

definition dot :: "vec \<Rightarrow> vec \<Rightarrow> real" where
  "dot a b = foldl (\<lambda>acc (p, q). fl (acc + fl (p * q))) 0 (zip a b)"

definition euclidean_distance :: "vec \<Rightarrow> vec \<Rightarrow> real" where
  "euclidean_distance a b =
     fl (sqrt (max 0 (fl (fl (fl (- 2 * dot a b) + dot a a) + dot b b))))"

definition exact_distance :: "vec \<Rightarrow> vec \<Rightarrow> real" where
  "exact_distance a b = sqrt (\<Sum>(p, q) \<leftarrow> zip a b. (p - q)\<^sup>2)"

text \<open>
  The matrix of computed distances; arguments that the validation refuses raise. The
  entries are reals, so an array that holds NaN or an infinity, which the validation
  refuses as well, is outside the type.
\<close>

definition euclidean_distances :: "matrix \<Rightarrow> matrix \<Rightarrow> error + matrix" where
  "euclidean_distances x y =
     (if check_pairwise_arrays x y
      then Inr (map (\<lambda>a. map (euclidean_distance a) y) x)
      else Inl ValueError)"

text \<open>
  \<open>np.argsort\<close> is called with its default sort kind, which the library documents as not
  stable. The search therefore takes the index sort of one row as a parameter
  \<open>argsort\<close>, and \<open>argsort_contract\<close> is what every kind of \<open>np.argsort\<close> guarantees:
  the result holds every position of the row exactly once, and reading the row in that
  order gives non-decreasing values.
\<close>

definition argsort_contract :: "(real list \<Rightarrow> nat list) \<Rightarrow> bool" where
  "argsort_contract argsort \<longleftrightarrow>
     (\<forall>ds. distinct (argsort ds) \<and> set (argsort ds) = {..<length ds} \<and>
           sorted (map (\<lambda>i. ds ! i) (argsort ds)))"

text \<open>
  An index sort within the contract, used to run the examples: insertion sort by value.
  On a row without equal values every index sort within the contract returns the same
  list (\<open>argsort_unique\<close> below).
\<close>

definition stable_argsort :: "real list \<Rightarrow> nat list" where
  "stable_argsort ds = sort_key (\<lambda>i. ds ! i) [0..<length ds]"

text \<open>
  \<open>np.setdiff1d(ar1, ar2, assume_unique=True)\<close> is \<open>ar1[in1d(ar1, ar2, invert=True)]\<close>:
  a boolean mask over \<open>ar1\<close> and the selection of the positions where the mask holds.
  With \<open>assume_unique=True\<close> the library neither sorts nor deduplicates \<open>ar1\<close>.
\<close>

definition in1d_invert :: "nat list \<Rightarrow> nat list \<Rightarrow> bool list" where
  "in1d_invert ar1 ar2 = map (\<lambda>a. a \<notin> set ar2) ar1"

definition mask_select :: "'a list \<Rightarrow> bool list \<Rightarrow> 'a list" where
  "mask_select xs keep = map fst (filter snd (zip xs keep))"

definition setdiff1d :: "nat list \<Rightarrow> nat list \<Rightarrow> nat list" where
  "setdiff1d ar1 ar2 = mask_select ar1 (in1d_invert ar1 ar2)"

subsection \<open>\<open>preprocess\<close>: the checks before the numeric work\<close>

text \<open>
  What \<open>preprocess\<close> sees of the file system: whether the two input files exist, the
  column names of the interactions table (\<open>df_intxn.columns\<close>) and the header of the
  items file.
\<close>

record tables =
  interactions_exists :: bool
  items_exists :: bool
  intxn_columns :: "string list"
  items_header :: "string list"

text \<open>\<open>df[name]\<close> raises \<open>KeyError\<close> when the table has no such column.\<close>

definition column :: "string list \<Rightarrow> string \<Rightarrow> error + unit" where
  "column cols name = (if name \<in> set cols then Inr () else Inl KeyError)"

text \<open>
  \<open>pd.read_csv(path, index_col="id")\<close> raises \<open>ValueError\<close> when the file has no column
  \<open>id\<close>; otherwise \<open>id\<close> becomes the index and the other columns are \<open>df.columns\<close>.
\<close>

definition read_csv_index_id :: "string list \<Rightarrow> error + string list" where
  "read_csv_index_id header =
     (if ''id'' \<in> set header then Inr (remove1 ''id'' header) else Inl ValueError)"

text \<open>
  The function up to the construction of the sparse matrix; fitting the models and
  serialising the embeddings (the numeric work) is the final \<open>Inr ()\<close>.
\<close>

definition preprocess :: "tables \<Rightarrow> error + unit" where
  "preprocess t =
     (if \<not> interactions_exists t then Inl FileNotFoundError
      else if \<not> items_exists t then Inl FileNotFoundError
      else (case read_csv_index_id (items_header t) of Inl e \<Rightarrow> Inl e | Inr items_columns \<Rightarrow>
        if set (intxn_columns t) - set [''interaction'', ''item'', ''user''] \<noteq> {}
          then Inl ColumnNotFoundError
        else if ''title'' \<notin> set items_columns then Inl ColumnNotFoundError
        else (case column items_columns ''title'' of Inl e \<Rightarrow> Inl e | Inr _ \<Rightarrow>
             (case column (intxn_columns t) ''interaction'' of Inl e \<Rightarrow> Inl e | Inr _ \<Rightarrow>
             (case column (intxn_columns t) ''item'' of Inl e \<Rightarrow> Inl e | Inr _ \<Rightarrow>
             (case column (intxn_columns t) ''user'' of Inl e \<Rightarrow> Inl e | Inr _ \<Rightarrow>
              Inr ()))))))"

subsection \<open>The recommender\<close>

text \<open>
  The fields of \<open>Recommender\<close>. The encoder maps the query to its row in the semantic
  space. \<open>items\<close> is the catalogue table indexed by \<open>id\<close>: a label is mapped to the
  values of its row, one per column. Row \<open>i\<close> of either embedding matrix belongs to the
  item with identifier \<open>i\<close>.
\<close>

record recommender =
  encoder :: "string \<Rightarrow> vec"
  embeds_mf :: matrix
  embeds_use :: matrix
  items :: "nat \<rightharpoonup> string list"
  interacted_items :: "nat set"

text \<open>The keyword arguments of \<open>recommend\<close>.\<close>

record config =
  K_use :: int
  K_mf :: int
  n_to_recommend :: int
  use_buffer_multiplier :: int
  mf_buffer_multiplier :: int

text \<open>
  \<open>_find_nearest(x, y, K)\<close>: the distance matrix is computed, every row of it is
  index-sorted, the rows are reversed (\<open>[::-1]\<close> acts on the first axis), the first row
  is taken and cut to \<open>[:K]\<close>.
\<close>

definition find_nearest ::
    "(real list \<Rightarrow> nat list) \<Rightarrow> matrix \<Rightarrow> matrix \<Rightarrow> int \<Rightarrow> error + nat list" where
  "find_nearest argsort x y K =
     (case euclidean_distances x y of
        Inl e \<Rightarrow> Inl e
      | Inr dists \<Rightarrow>
          (let sorted_items = rev (map argsort dists)
           in case sorted_items of [] \<Rightarrow> Inl IndexError | r # _ \<Rightarrow> Inr (py_take K r)))"

text \<open>\<open>m[None, i]\<close>: the one-row matrix holding row \<open>i\<close>; out of range raises.\<close>

definition row_at :: "matrix \<Rightarrow> nat \<Rightarrow> error + matrix" where
  "row_at m i = (if i < length m then Inr [m ! i] else Inl IndexError)"

text \<open>Steps 1 to 3 of \<open>recommend\<close>: semantic search, interaction filter, first \<open>K_use\<close>.\<close>

definition semantic_candidates ::
    "(real list \<Rightarrow> nat list) \<Rightarrow> recommender \<Rightarrow> string \<Rightarrow> config \<Rightarrow> error + nat list" where
  "semantic_candidates argsort R query c =
     find_nearest argsort [encoder R query] (embeds_use R) (K_use c * use_buffer_multiplier c)"

definition seed_set ::
    "(real list \<Rightarrow> nat list) \<Rightarrow> recommender \<Rightarrow> string \<Rightarrow> config \<Rightarrow> error + nat list" where
  "seed_set argsort R query c =
     (case semantic_candidates argsort R query c of
        Inl e \<Rightarrow> Inl e
      | Inr item_ids \<Rightarrow>
          Inr (py_take (K_use c) (filter (\<lambda>item_id. item_id \<in> interacted_items R) item_ids)))"

text \<open>Step 4: the body of the loop over the seeds, and the loop with its accumulator.\<close>

definition mf_neighbours ::
    "(real list \<Rightarrow> nat list) \<Rightarrow> recommender \<Rightarrow> config \<Rightarrow> nat \<Rightarrow> error + nat list" where
  "mf_neighbours argsort R c item_id =
     (case row_at (embeds_mf R) item_id of
        Inl e \<Rightarrow> Inl e
      | Inr q \<Rightarrow> find_nearest argsort q (embeds_mf R) (K_mf c * mf_buffer_multiplier c))"

definition mf_step ::
    "(real list \<Rightarrow> nat list) \<Rightarrow> recommender \<Rightarrow> config \<Rightarrow> nat list \<Rightarrow> nat \<Rightarrow> error + nat list" where
  "mf_step argsort R c recs item_id =
     (case mf_neighbours argsort R c item_id of
        Inl e \<Rightarrow> Inl e
      | Inr mf_items \<Rightarrow> Inr (recs @ py_take (K_mf c) (setdiff1d mf_items recs)))"

fun mf_loop ::
    "(real list \<Rightarrow> nat list) \<Rightarrow> recommender \<Rightarrow> config \<Rightarrow> nat list \<Rightarrow> nat list \<Rightarrow> error + nat list" where
  "mf_loop argsort R c [] recs = Inr recs"
| "mf_loop argsort R c (item_id # rest) recs =
     (case mf_step argsort R c recs item_id of
        Inl e \<Rightarrow> Inl e
      | Inr recs' \<Rightarrow> mf_loop argsort R c rest recs')"

text \<open>
  Step 6: \<open>self.items.loc[idx].item()\<close> for every identifier. A label that the table
  does not have raises \<open>KeyError\<close>; \<open>.item()\<close> returns the value of a row of exactly one
  column and raises \<open>ValueError\<close> on any other row.
\<close>

definition loc_item :: "(nat \<rightharpoonup> string list) \<Rightarrow> nat \<Rightarrow> error + string" where
  "loc_item tbl idx =
     (case tbl idx of
        None \<Rightarrow> Inl KeyError
      | Some row \<Rightarrow> (case row of [t] \<Rightarrow> Inr t | _ \<Rightarrow> Inl ValueError))"

fun titles_of :: "(nat \<rightharpoonup> string list) \<Rightarrow> nat list \<Rightarrow> error + string list" where
  "titles_of tbl [] = Inr []"
| "titles_of tbl (idx # rest) =
     (case loc_item tbl idx of
        Inl e \<Rightarrow> Inl e
      | Inr t \<Rightarrow> (case titles_of tbl rest of Inl e \<Rightarrow> Inl e | Inr ts \<Rightarrow> Inr (t # ts)))"

text \<open>
  \<open>recommend_ids\<close> is \<open>recs\<close> after step 5 (the truncation); \<open>recommend\<close> is the whole
  method.
\<close>

definition recommend_ids ::
    "(real list \<Rightarrow> nat list) \<Rightarrow> recommender \<Rightarrow> string \<Rightarrow> config \<Rightarrow> error + nat list" where
  "recommend_ids argsort R query c =
     (case seed_set argsort R query c of
        Inl e \<Rightarrow> Inl e
      | Inr item_ids \<Rightarrow>
          (case mf_loop argsort R c item_ids [] of
             Inl e \<Rightarrow> Inl e
           | Inr recs \<Rightarrow> Inr (py_take (n_to_recommend c) recs)))"

definition recommend ::
    "(real list \<Rightarrow> nat list) \<Rightarrow> recommender \<Rightarrow> string \<Rightarrow> config \<Rightarrow> error + string list" where
  "recommend argsort R query c =
     (case recommend_ids argsort R query c of
        Inl e \<Rightarrow> Inl e
      | Inr recs \<Rightarrow> titles_of (items R) recs)"

subsection \<open>Invariants of the store\<close>

text \<open>
  The store the data model asks for: both embedding matrices are dense arrays with one
  row per catalogue item, and every row index is a label of the catalogue table, whose
  only column is the title.
\<close>

definition valid_store :: "recommender \<Rightarrow> bool" where
  "valid_store R \<longleftrightarrow>
     array2d (embeds_use R) \<and> array2d (embeds_mf R) \<and>
     length (embeds_use R) = length (embeds_mf R) \<and>
     list_all (\<lambda>i. case items R i of None \<Rightarrow> False | Some row \<Rightarrow> length row = 1)
       [0..<length (embeds_mf R)]"

subsection \<open>Example stores\<close>

text \<open>A catalogue of six items with one-dimensional embeddings.\<close>

definition example_recommender :: recommender where
  "example_recommender =
     \<lparr> encoder = (\<lambda>q. [0]),
       embeds_mf = [[0], [-4], [5], [2], [-6], [11]],
       embeds_use = [[2], [1], [4], [3], [6], [5]],
       items = [0 \<mapsto> [''A''], 1 \<mapsto> [''B''], 2 \<mapsto> [''C''],
                3 \<mapsto> [''D''], 4 \<mapsto> [''E''], 5 \<mapsto> [''F'']],
       interacted_items = {0, 2, 4} \<rparr>"

definition example_config :: config where
  "example_config =
     \<lparr> K_use = 2, K_mf = 2, n_to_recommend = 3,
       use_buffer_multiplier = 3, mf_buffer_multiplier = 2 \<rparr>"

text \<open>The empty catalogue: no item, no interaction.\<close>

definition empty_store :: recommender where
  "empty_store =
     \<lparr> encoder = (\<lambda>q. [0]), embeds_mf = [], embeds_use = [],
       items = Map.empty, interacted_items = {} \<rparr>"



text \<open>Interactions tables for the schema check.\<close>

definition missing_interaction_column :: tables where
  "missing_interaction_column =
     \<lparr> interactions_exists = True, items_exists = True,
       intxn_columns = [''user'', ''item''], items_header = [''id'', ''title''] \<rparr>"

definition extra_interaction_column :: tables where
  "extra_interaction_column =
     \<lparr> interactions_exists = True, items_exists = True,
       intxn_columns = [''user'', ''item'', ''interaction'', ''timestamp''],
       items_header = [''id'', ''title''] \<rparr>"

section \<open>Properties\<close>

subsection \<open>Slices\<close>


lemma py_take_prefix: "prefix (py_take k xs) xs"
  by (simp add: py_take_def take_is_prefix)

lemma length_py_take_le: "0 \<le> k \<Longrightarrow> int (length (py_take k xs)) \<le> k"
  by (simp add: py_take_def)


lemma set_py_take_subset: "set (py_take k xs) \<subseteq> set xs"
  by (simp add: py_take_def set_take_subset)

lemma distinct_py_take: "distinct xs \<Longrightarrow> distinct (py_take k xs)"
  by (simp add: py_take_def)


lemma py_take_mono: "0 \<le> j \<Longrightarrow> j \<le> k \<Longrightarrow> prefix (py_take j xs) (py_take k xs)"
proof -
  assume "0 \<le> j" "j \<le> k"
  then have "take (nat j) xs = take (nat j) (take (nat k) xs)"
    by (simp add: min_def)
  then have "prefix (take (nat j) xs) (take (nat k) xs)"
    by (metis take_is_prefix)
  with \<open>0 \<le> j\<close> \<open>j \<le> k\<close> show ?thesis by (simp add: py_take_def)
qed

lemma prefix_filter: "prefix xs ys \<Longrightarrow> prefix (filter P xs) (filter P ys)"
  by (auto simp: prefix_def)

lemma prefix_take_mono: "prefix xs ys \<Longrightarrow> prefix (take n xs) (take n ys)"
  by (auto simp: prefix_def)

subsection \<open>Rounding\<close>

lemma round_half_even_of_int: "round_half_even (of_int m) = m"
  by (simp add: round_half_even_def)

lemma fl_binade:
  assumes "2 powr of_int (52 + e) \<le> \<bar>x\<bar>" "\<bar>x\<bar> < 2 powr of_int (53 + e)"
  shows "fl x = of_int (round_half_even (x / 2 powr of_int e)) * 2 powr of_int e"
proof -
  have pos: "0 < \<bar>x\<bar>"
    using assms(1) powr_gt_zero [of 2 "of_int (52 + e)"] by linarith
  have "\<lfloor>log 2 \<bar>x\<bar>\<rfloor> = 52 + e"
    using assms pos by (subst floor_log_eq_powr_iff) (simp_all add: add.commute add.left_commute)
  then show ?thesis
    using pos by (simp add: fl_def)
qed

lemma fl_of_int_binade:
  fixes k :: nat
  assumes "2 ^ (52 + k) \<le> \<bar>n\<bar>" "\<bar>n\<bar> < 2 ^ (53 + k)"
  shows "fl (of_int n) = of_int (round_half_even (of_int n / 2 ^ k)) * 2 ^ k"
proof -
  have a: "2 powr of_int (52 + int k) \<le> \<bar>real_of_int n\<bar>"
  proof -
    have "real_of_int (2 ^ (52 + k)) \<le> real_of_int \<bar>n\<bar>" using assms(1) by linarith
    moreover have "(2::real) powr of_int (52 + int k) = 2 ^ (52 + k)"
      by (simp add: powr_realpow [symmetric])
    ultimately show ?thesis by simp
  qed
  have b: "\<bar>real_of_int n\<bar> < 2 powr of_int (53 + int k)"
  proof -
    have "real_of_int \<bar>n\<bar> < real_of_int (2 ^ (53 + k))" using assms(2) by linarith
    moreover have "(2::real) powr of_int (53 + int k) = 2 ^ (53 + k)"
      by (simp add: powr_realpow [symmetric])
    ultimately show ?thesis by simp
  qed
  have "(2::real) powr of_int (int k) = 2 ^ k"
    by (simp add: powr_realpow [symmetric])
  with fl_binade [OF a b] show ?thesis by simp
qed

text \<open>Integers below \<open>2\<^sup>5\<^sup>3\<close> are binary64 numbers.\<close>

lemma fl_of_int_exact:
  assumes "\<bar>n\<bar> < 2 ^ 53"
  shows "fl (of_int n) = of_int n"
proof (cases "n = 0")
  case True
  then show ?thesis by (simp add: fl_def)
next
  case False
  define e where "e = \<lfloor>log 2 \<bar>real_of_int n\<bar>\<rfloor> - 52"
  have pos: "0 < \<bar>real_of_int n\<bar>" using False by simp
  have lt: "\<bar>real_of_int n\<bar> < 2 ^ 53"
  proof -
    have "real_of_int \<bar>n\<bar> < real_of_int (2 ^ 53)" using assms by linarith
    then show ?thesis by simp
  qed
  have "log 2 \<bar>real_of_int n\<bar> < 53"
    using lt pos by (simp add: log_less_iff)
  then have "\<lfloor>log 2 \<bar>real_of_int n\<bar>\<rfloor> < 53" by linarith
  then have e: "e \<le> 0" by (simp add: e_def)
  define j where "j = nat (- e)"
  have ej: "e = - int j" using e by (simp add: j_def)
  have p: "(2::real) powr of_int e = 1 / 2 ^ j"
    by (simp add: ej powr_minus powr_realpow [symmetric] field_simps)
  have "real_of_int n / 2 powr of_int e = of_int (n * 2 ^ j)"
    by (simp add: p)
  then have "round_half_even (real_of_int n / 2 powr of_int e) = n * 2 ^ j"
    by (simp only: round_half_even_of_int)
  then show ?thesis
    using False by (simp add: fl_def e_def [symmetric] p)
qed

lemma fl_0: "fl 0 = 0"
  by (simp add: fl_def)

lemma fl_1: "fl 1 = 1"
  using fl_of_int_exact [of 1] by simp

lemma fl_numeral: "numeral w < (2 ^ 53 :: int) \<Longrightarrow> fl (numeral w) = numeral w"
  using fl_of_int_exact [of "numeral w"] by simp

lemma fl_neg_numeral: "numeral w < (2 ^ 53 :: int) \<Longrightarrow> fl (- numeral w) = - numeral w"
  using fl_of_int_exact [of "- numeral w"] by simp

lemma fl_numeral_binade:
  fixes k :: nat
  assumes "2 ^ (52 + k) \<le> (numeral w :: int)" "(numeral w :: int) < 2 ^ (53 + k)"
  shows "fl (numeral w) = of_int (round_half_even (numeral w / 2 ^ k)) * 2 ^ k"
  using fl_of_int_binade [of k "numeral w"] assms by simp

lemma fl_neg_numeral_binade:
  fixes k :: nat
  assumes "2 ^ (52 + k) \<le> (numeral w :: int)" "(numeral w :: int) < 2 ^ (53 + k)"
  shows "fl (- numeral w) = of_int (round_half_even (- numeral w / 2 ^ k)) * 2 ^ k"
  using fl_of_int_binade [of k "- numeral w"] assms by simp

lemmas fl_small = fl_0 fl_1 fl_numeral fl_neg_numeral

lemmas fl_large =
  fl_numeral_binade [of 1] fl_numeral_binade [of 2] fl_numeral_binade [of 3]
  fl_neg_numeral_binade [of 1] fl_neg_numeral_binade [of 2] fl_neg_numeral_binade [of 3]
  round_half_even_def

lemma sqrt_squares:
  "sqrt 4 = 2" "sqrt 9 = 3" "sqrt 16 = 4" "sqrt 25 = 5" "sqrt 36 = 6" "sqrt 81 = 9"
  "sqrt 121 = 11"
  by (rule real_sqrt_unique; simp)+

lemmas distance_defs = euclidean_distance_def dot_def fl_small sqrt_squares

subsection \<open>Computed distances of the example rows\<close>


lemma inverted_distances:
  "euclidean_distance [134217729] [134217730] = 2"
  "euclidean_distance [134217729] [134217731] = 0"
  "exact_distance [134217729] [134217730] = 1"
  "exact_distance [134217729] [134217731] = 2"
  by (simp_all add: distance_defs fl_large exact_distance_def)

lemma equidistant_distances:
  "euclidean_distance [134217730] [134217729] = 2"
  "euclidean_distance [134217730] [134217731] = 0"
  "exact_distance [134217730] [134217729] = 1"
  "exact_distance [134217730] [134217731] = 1"
  by (simp_all add: distance_defs fl_large exact_distance_def)

subsection \<open>Library functions\<close>

lemma setdiff1d_filter: "setdiff1d ar1 ar2 = filter (\<lambda>a. a \<notin> set ar2) ar1"
  unfolding setdiff1d_def mask_select_def in1d_invert_def
  by (induction ar1) auto

lemma stable_argsort_contract: "argsort_contract stable_argsort"
  unfolding argsort_contract_def stable_argsort_def
  by (auto simp: sorted_sort_key)

text \<open>A row of pairwise different values has one sorting permutation only.\<close>

lemma argsort_unique:
  assumes "argsort_contract srt" "distinct ds"
  shows "srt ds = stable_argsort ds"
proof -
  let ?f = "\<lambda>i. ds ! i"
  let ?xs = "srt ds" and ?ys = "stable_argsort ds"
  have x: "distinct ?xs" "set ?xs = {..<length ds}" "sorted (map ?f ?xs)"
    using assms(1) by (simp_all add: argsort_contract_def)
  have y: "distinct ?ys" "set ?ys = {..<length ds}" "sorted (map ?f ?ys)"
    using stable_argsort_contract by (simp_all add: argsort_contract_def)
  have inj: "inj_on ?f {..<length ds}"
    using assms(2) by (auto simp: inj_on_def nth_eq_iff_index_eq)
  have "distinct (map ?f ?xs)" "distinct (map ?f ?ys)"
    using x y inj by (simp_all add: distinct_map)
  moreover have "set (map ?f ?xs) = set (map ?f ?ys)"
    using x(2) y(2) by simp
  ultimately have "map ?f ?xs = map ?f ?ys"
    using x(3) y(3) by (intro sorted_distinct_set_unique)
  moreover have "inj_on ?f (set ?xs \<union> set ?ys)"
    using inj x(2) y(2) by simp
  ultimately show ?thesis
    by (simp add: inj_on_map_eq_map)
qed

subsection \<open>The search with one query row\<close>

lemma find_nearest_single:
  "check_pairwise_arrays [v] y \<Longrightarrow>
     find_nearest srt [v] y K = Inr (py_take K (srt (map (euclidean_distance v) y)))"
  by (simp add: find_nearest_def euclidean_distances_def)

lemma find_nearest_refused:
  "\<not> check_pairwise_arrays x y \<Longrightarrow> find_nearest srt x y K = Inl ValueError"
  by (simp add: find_nearest_def euclidean_distances_def)

lemma find_nearest_Inr:
  "find_nearest srt [v] y K = Inr idxs \<Longrightarrow>
     check_pairwise_arrays [v] y \<and> idxs = py_take K (srt (map (euclidean_distance v) y))"
  by (cases "check_pairwise_arrays [v] y")
    (simp_all add: find_nearest_single find_nearest_refused)




text \<open>
  The two rows used against C3 and C4 have different computed distances, so the order in
  which they are returned does not depend on the index sort.
\<close>

lemma inverted_order_any_sort:
  assumes "argsort_contract srt"
  shows "find_nearest srt [[134217729]] [[134217730], [134217731]] 2 = Inr [1, 0]"
proof -
  have "srt [2, 0] = stable_argsort [2, 0]"
    using assms by (rule argsort_unique) simp
  then have "srt [2, 0] = [1, 0]"
    by (simp add: stable_argsort_def upt_conv_Cons)
  then show ?thesis
    by (simp add: find_nearest_def euclidean_distances_def check_pairwise_arrays_def
        array2d_def inverted_distances py_take_def)
qed

lemma equidistant_order_any_sort:
  assumes "argsort_contract srt"
  shows "find_nearest srt [[134217730]] [[134217729], [134217731]] 2 = Inr [1, 0]"
proof -
  have "srt [2, 0] = stable_argsort [2, 0]"
    using assms by (rule argsort_unique) simp
  then have "srt [2, 0] = [1, 0]"
    by (simp add: stable_argsort_def upt_conv_Cons)
  then show ?thesis
    by (simp add: find_nearest_def euclidean_distances_def check_pairwise_arrays_def
        array2d_def equidistant_distances py_take_def)
qed

subsection \<open>The loop over the seeds\<close>

lemma titles_of_length: "titles_of tbl ids = Inr ts \<Longrightarrow> length ts = length ids"
  by (induction ids arbitrary: ts) (auto split: sum.splits)

lemma loc_item_Inr: "loc_item tbl idx = Inr t \<longleftrightarrow> tbl idx = Some [t]"
  by (auto simp: loc_item_def split: option.splits list.splits)

lemma titles_of_nth:
  "titles_of tbl ids = Inr ts \<Longrightarrow> i < length ids \<Longrightarrow> tbl (ids ! i) = Some [ts ! i]"
  by (induction ids arbitrary: ts i)
    (auto split: sum.splits simp: nth_Cons' loc_item_Inr)

lemma titles_of_total:
  "\<forall>i\<in>set ids. \<exists>t. tbl i = Some [t] \<Longrightarrow> \<exists>ts. titles_of tbl ids = Inr ts"
proof (induction ids)
  case Nil
  then show ?case by simp
next
  case (Cons i ids)
  then obtain t where "loc_item tbl i = Inr t" by (auto simp: loc_item_Inr)
  moreover from Cons obtain ts where "titles_of tbl ids = Inr ts" by auto
  ultimately show ?case by simp
qed

lemma mf_neighbours_Inr:
  "mf_neighbours srt R c s = Inr mf_items \<Longrightarrow>
     s < length (embeds_mf R) \<and>
     check_pairwise_arrays [embeds_mf R ! s] (embeds_mf R) \<and>
     mf_items = py_take (K_mf c * mf_buffer_multiplier c)
                  (srt (map (euclidean_distance (embeds_mf R ! s)) (embeds_mf R)))"
  by (auto simp: mf_neighbours_def row_at_def split: if_splits dest: find_nearest_Inr)

lemma mf_neighbours_distinct:
  assumes "argsort_contract srt" "mf_neighbours srt R c s = Inr mf_items"
  shows "distinct mf_items"
proof -
  have "distinct (srt (map (euclidean_distance (embeds_mf R ! s)) (embeds_mf R)))"
    using assms(1) by (simp add: argsort_contract_def)
  then show ?thesis
    using mf_neighbours_Inr[OF assms(2)] by (simp add: distinct_py_take)
qed

lemma mf_neighbours_range:
  assumes "argsort_contract srt" "mf_neighbours srt R c s = Inr mf_items"
  shows "set mf_items \<subseteq> {..<length (embeds_mf R)}"
proof -
  let ?p = "srt (map (euclidean_distance (embeds_mf R ! s)) (embeds_mf R))"
  have "set ?p = {..<length (embeds_mf R)}"
    using assms(1) by (simp add: argsort_contract_def)
  moreover have "set mf_items \<subseteq> set ?p"
    using mf_neighbours_Inr[OF assms(2)] set_py_take_subset by metis
  ultimately show ?thesis by simp
qed

lemma mf_step_distinct:
  assumes "argsort_contract srt" "distinct recs" "mf_step srt R c recs s = Inr recs'"
  shows "distinct recs'"
proof -
  from assms(3) obtain mf_items where n: "mf_neighbours srt R c s = Inr mf_items"
    and r: "recs' = recs @ py_take (K_mf c) (setdiff1d mf_items recs)"
    by (auto simp: mf_step_def split: sum.splits)
  have "distinct mf_items" using assms(1) n by (rule mf_neighbours_distinct)
  then have "distinct (py_take (K_mf c) (setdiff1d mf_items recs))"
    by (simp add: setdiff1d_filter distinct_py_take)
  moreover have "set (py_take (K_mf c) (setdiff1d mf_items recs)) \<inter> set recs = {}"
    using set_py_take_subset[of "K_mf c" "setdiff1d mf_items recs"]
    by (auto simp: setdiff1d_filter)
  ultimately show ?thesis using assms(2) r by auto
qed

lemma mf_loop_distinct:
  "argsort_contract srt \<Longrightarrow> distinct recs \<Longrightarrow> mf_loop srt R c seeds recs = Inr acc
     \<Longrightarrow> distinct acc"
proof (induction seeds arbitrary: recs)
  case Nil
  then show ?case by simp
next
  case (Cons s seeds)
  from Cons.prems(3) obtain recs' where st: "mf_step srt R c recs s = Inr recs'"
    and lp: "mf_loop srt R c seeds recs' = Inr acc"
    by (auto split: sum.splits)
  have "distinct recs'" using Cons.prems(1,2) st by (rule mf_step_distinct)
  with Cons.IH Cons.prems(1) lp show ?case by blast
qed


subsection \<open>A valid store raises nothing\<close>

lemma valid_store_row:
  assumes "valid_store R" "s < length (embeds_mf R)"
  shows "check_pairwise_arrays [embeds_mf R ! s] (embeds_mf R)"
proof -
  from assms(1) have a: "array2d (embeds_mf R)" by (simp add: valid_store_def)
  then have "length (embeds_mf R ! s) = length (hd (embeds_mf R))"
    using assms(2) by (simp add: array2d_def list_all_length)
  with a show ?thesis
    by (auto simp: check_pairwise_arrays_def array2d_def)
qed

lemma mf_step_total:
  assumes "argsort_contract srt" "valid_store R" "s < length (embeds_mf R)"
    "set recs \<subseteq> {..<length (embeds_mf R)}"
  shows "\<exists>recs'. mf_step srt R c recs s = Inr recs' \<and> set recs' \<subseteq> {..<length (embeds_mf R)}"
proof -
  let ?p = "srt (map (euclidean_distance (embeds_mf R ! s)) (embeds_mf R))"
  let ?items = "py_take (K_mf c * mf_buffer_multiplier c) ?p"
  let ?rec = "py_take (K_mf c) (setdiff1d ?items recs)"
  have n: "mf_neighbours srt R c s = Inr ?items"
    using assms(3) valid_store_row [OF assms(2,3)]
    by (simp add: mf_neighbours_def row_at_def find_nearest_single)
  then have "set ?items \<subseteq> {..<length (embeds_mf R)}"
    using assms(1) by (rule mf_neighbours_range [rotated])
  moreover have "set ?rec \<subseteq> set ?items"
    using set_py_take_subset [of "K_mf c" "setdiff1d ?items recs"]
    by (auto simp: setdiff1d_filter)
  ultimately have "set (recs @ ?rec) \<subseteq> {..<length (embeds_mf R)}"
    using assms(4) by auto
  moreover have "mf_step srt R c recs s = Inr (recs @ ?rec)"
    using n by (simp add: mf_step_def)
  ultimately show ?thesis by blast
qed

lemma mf_loop_total:
  "argsort_contract srt \<Longrightarrow> valid_store R \<Longrightarrow> set seeds \<subseteq> {..<length (embeds_mf R)}
     \<Longrightarrow> set recs \<subseteq> {..<length (embeds_mf R)}
     \<Longrightarrow> \<exists>acc. mf_loop srt R c seeds recs = Inr acc \<and> set acc \<subseteq> {..<length (embeds_mf R)}"
proof (induction seeds arbitrary: recs)
  case Nil
  then show ?case by simp
next
  case (Cons s seeds)
  from Cons.prems have "s < length (embeds_mf R)" by simp
  with Cons.prems obtain recs' where st: "mf_step srt R c recs s = Inr recs'"
    and rg: "set recs' \<subseteq> {..<length (embeds_mf R)}"
    using mf_step_total by blast
  from Cons.prems have "set seeds \<subseteq> {..<length (embeds_mf R)}" by simp
  with Cons.IH Cons.prems(1,2) rg
  obtain acc where "mf_loop srt R c seeds recs' = Inr acc"
    "set acc \<subseteq> {..<length (embeds_mf R)}" by blast
  with st show ?case by simp
qed

lemma seed_set_value:
  "check_pairwise_arrays [encoder R query] (embeds_use R) \<Longrightarrow>
   seed_set srt R query c =
     Inr (py_take (K_use c) (filter (\<lambda>item_id. item_id \<in> interacted_items R)
       (py_take (K_use c * use_buffer_multiplier c)
          (srt (map (euclidean_distance (encoder R query)) (embeds_use R))))))"
  by (simp add: seed_set_def semantic_candidates_def find_nearest_single)

lemma seed_set_refused:
  "\<not> check_pairwise_arrays [encoder R query] (embeds_use R) \<Longrightarrow>
   seed_set srt R query c = Inl ValueError"
  by (simp add: seed_set_def semantic_candidates_def find_nearest_refused)

lemma seed_set_range:
  assumes "argsort_contract srt" "seed_set srt R query c = Inr seeds"
  shows "set seeds \<subseteq> {..<length (embeds_use R)}"
proof -
  let ?p = "srt (map (euclidean_distance (encoder R query)) (embeds_use R))"
  let ?c = "py_take (K_use c * use_buffer_multiplier c) ?p"
  let ?f = "filter (\<lambda>item_id. item_id \<in> interacted_items R) ?c"
  have "check_pairwise_arrays [encoder R query] (embeds_use R)"
    using assms(2) seed_set_refused [of R query srt c] by auto
  then have "seeds = py_take (K_use c) ?f"
    using assms(2) by (simp add: seed_set_value)
  then have "set seeds \<subseteq> set ?f" using set_py_take_subset [of "K_use c" ?f] by blast
  moreover have "set ?f \<subseteq> set ?c" by auto
  moreover have "set ?c \<subseteq> set ?p" by (rule set_py_take_subset)
  moreover have "set ?p = {..<length (embeds_use R)}"
    using assms(1) by (simp add: argsort_contract_def)
  ultimately show ?thesis by blast
qed

subsection \<open>The example stores, evaluated\<close>

lemmas example_defs =
  example_recommender_def example_config_def recommend_def recommend_ids_def mf_step_def
  mf_neighbours_def row_at_def setdiff1d_def mask_select_def in1d_invert_def seed_set_def
  semantic_candidates_def find_nearest_def euclidean_distances_def check_pairwise_arrays_def
  array2d_def loc_item_def distance_defs py_take_def stable_argsort_def upt_conv_Cons

lemma example_candidates:
  "semantic_candidates stable_argsort example_recommender q example_config
     = Inr [1, 0, 3, 2, 5, 4]"
  by (simp add: example_defs)

lemma example_seed_set:
  "seed_set stable_argsort example_recommender q example_config = Inr [0, 2]"
  by (simp add: example_defs)

lemma example_neighbours_of_2:
  "mf_neighbours stable_argsort example_recommender example_config 2 = Inr [2, 3, 0, 5]"
  by (simp add: example_defs)

lemma example_recommend_ids:
  "recommend_ids stable_argsort example_recommender q example_config = Inr [0, 3, 2]"
  by (simp add: example_defs)

lemma example_recommend:
  "recommend stable_argsort example_recommender q example_config
     = Inr [''A'', ''D'', ''C'']"
  by (simp add: example_defs)

lemma example_valid: "valid_store example_recommender"
  by (simp add: valid_store_def array2d_def example_recommender_def upt_conv_Cons)

lemma example_query_width:
  "check_pairwise_arrays [encoder example_recommender q] (embeds_use example_recommender)"
  by (simp add: check_pairwise_arrays_def array2d_def example_recommender_def)

subsection \<open>The schema check of \<open>preprocess\<close>\<close>

lemma preprocess_extra_column:
  "preprocess extra_interaction_column = Inl ColumnNotFoundError"
  by (simp add: preprocess_def read_csv_index_id_def extra_interaction_column_def)

lemma preprocess_missing_title:
  "interactions_exists t \<Longrightarrow> items_exists t \<Longrightarrow> ''id'' \<in> set (items_header t)
     \<Longrightarrow> set (intxn_columns t) \<subseteq> {''interaction'', ''item'', ''user''}
     \<Longrightarrow> ''title'' \<notin> set (items_header t)
     \<Longrightarrow> preprocess t = Inl ColumnNotFoundError"
  by (auto simp: preprocess_def read_csv_index_id_def dest: notin_set_remove1)

section \<open>The claims\<close>

text \<open>
  C1. For every query and every valid configuration (\<open>n_to_recommend\<close> is not negative),
  the list that \<open>recommend\<close> returns has at most \<open>n_to_recommend\<close> elements.
\<close>

theorem recommend_length_bound:
  "0 \<le> n_to_recommend c \<Longrightarrow> recommend srt R query c = Inr ts
     \<Longrightarrow> int (length ts) \<le> n_to_recommend c"
  by (auto simp: recommend_def recommend_ids_def split: sum.splits
      dest!: titles_of_length intro: length_py_take_le)

theorem recommend_length_bound_witness:
  "0 \<le> n_to_recommend example_config
   \<and> recommend stable_argsort example_recommender ''space opera'' example_config
       = Inr [''A'', ''D'', ''C'']
   \<and> int (length [''A'', ''D'', ''C'']) \<le> n_to_recommend example_config"
  using recommend_length_bound [of example_config stable_argsort example_recommender
      "''space opera''" "[''A'', ''D'', ''C'']"]
    example_recommend [of "''space opera''"]
  by (simp add: example_config_def)

text \<open>
  C2. The accumulator \<open>recs\<close> holds no identifier twice after any number of seeds, the
  truncated list of identifiers does not either, and the returned titles are, position by
  position, the titles of these pairwise different identifiers.
\<close>

theorem recs_never_duplicate:
  assumes "argsort_contract srt"
  shows "(\<forall>k acc. mf_loop srt R c (take k seeds) [] = Inr acc \<longrightarrow> distinct acc)
       \<and> (\<forall>ids. recommend_ids srt R query c = Inr ids \<longrightarrow> distinct ids)
       \<and> (\<forall>ts. recommend srt R query c = Inr ts \<longrightarrow>
            (\<exists>ids. recommend_ids srt R query c = Inr ids \<and> distinct ids
                 \<and> length ts = length ids
                 \<and> (\<forall>i<length ids. items R (ids ! i) = Some [ts ! i])))"
proof -
  have loop: "\<And>ss acc. mf_loop srt R c ss [] = Inr acc \<Longrightarrow> distinct acc"
    using assms mf_loop_distinct[of srt "[]" R c] by simp
  have ids: "\<And>ids. recommend_ids srt R query c = Inr ids \<Longrightarrow> distinct ids"
    by (auto simp: recommend_ids_def split: sum.splits dest!: loop intro: distinct_py_take)
  have "\<And>ts. recommend srt R query c = Inr ts \<Longrightarrow>
            (\<exists>ids. recommend_ids srt R query c = Inr ids \<and> distinct ids
                 \<and> length ts = length ids
                 \<and> (\<forall>i<length ids. items R (ids ! i) = Some [ts ! i]))"
    by (auto simp: recommend_def split: sum.splits
        dest: ids titles_of_length titles_of_nth)
  with loop ids show ?thesis by blast
qed

theorem recs_never_duplicate_witness:
  "argsort_contract stable_argsort
   \<and> recommend_ids stable_argsort example_recommender ''space opera'' example_config
       = Inr [0, 3, 2]
   \<and> distinct [0, 3, 2 :: nat]"
  using recs_never_duplicate [OF stable_argsort_contract,
      of example_recommender example_config "[0, 2]" "''space opera''"]
    stable_argsort_contract example_recommend_ids [of "''space opera''"]
  by simp







text \<open>
  C5. In the loop over the seeds, with \<open>K_mf\<close> not negative, the identifiers kept for a
  seed are exactly those of its neighbour list that are not in the accumulator, in the
  order of the neighbour list, and the first \<open>K_mf\<close> of them are appended to the
  accumulator in that order.
\<close>

theorem dedup_keeps_order:
  assumes "0 \<le> K_mf c" "mf_neighbours srt R c item_id = Inr mf_items"
  shows "\<exists>kept. kept = filter (\<lambda>a. a \<notin> set recs) mf_items
           \<and> set kept = set mf_items - set recs
           \<and> subseq kept mf_items
           \<and> mf_step srt R c recs item_id = Inr (recs @ take (nat (K_mf c)) kept)
           \<and> mf_loop srt R c (item_id # rest) recs
               = mf_loop srt R c rest (recs @ take (nat (K_mf c)) kept)"
proof -
  let ?kept = "filter (\<lambda>a. a \<notin> set recs) mf_items"
  have "set ?kept = set mf_items - set recs" by auto
  moreover have "subseq ?kept mf_items" by simp
  moreover have st: "mf_step srt R c recs item_id = Inr (recs @ take (nat (K_mf c)) ?kept)"
    using assms by (simp add: mf_step_def setdiff1d_filter py_take_def)
  moreover have "mf_loop srt R c (item_id # rest) recs
               = mf_loop srt R c rest (recs @ take (nat (K_mf c)) ?kept)"
    by (simp add: st)
  ultimately show ?thesis by blast
qed

theorem dedup_keeps_order_witness:
  "0 \<le> K_mf example_config
   \<and> mf_neighbours stable_argsort example_recommender example_config 2 = Inr [2, 3, 0, 5]
   \<and> mf_step stable_argsort example_recommender example_config [0, 3] 2 = Inr [0, 3, 2, 5]"
  using dedup_keeps_order [of example_config stable_argsort example_recommender 2
      "[2, 3, 0, 5]" "[0, 3]" "[]"] example_neighbours_of_2
  by (simp add: example_config_def)

text \<open>
  C6. Every identifier of the seed set is in \<open>interacted_items\<close>, and the interaction
  filter keeps the candidates that are in \<open>interacted_items\<close> in the order of the
  candidate list; the seed set is a prefix of the filtered list.
\<close>

theorem seeds_are_interacted:
  assumes "seed_set srt R query c = Inr seeds"
  shows "set seeds \<subseteq> interacted_items R
       \<and> (\<exists>cands filtered. semantic_candidates srt R query c = Inr cands
            \<and> filtered = filter (\<lambda>item_id. item_id \<in> interacted_items R) cands
            \<and> set filtered = set cands \<inter> interacted_items R
            \<and> subseq filtered cands
            \<and> seeds = py_take (K_use c) filtered
            \<and> prefix seeds filtered)"
proof -
  from assms obtain cands where cd: "semantic_candidates srt R query c = Inr cands"
    and sd: "seeds = py_take (K_use c) (filter (\<lambda>item_id. item_id \<in> interacted_items R) cands)"
    by (auto simp: seed_set_def split: sum.splits)
  let ?f = "filter (\<lambda>item_id. item_id \<in> interacted_items R) cands"
  have "set seeds \<subseteq> set ?f" unfolding sd by (rule set_py_take_subset)
  then have "set seeds \<subseteq> interacted_items R" by auto
  moreover have "set ?f = set cands \<inter> interacted_items R" by auto
  moreover have "subseq ?f cands" by simp
  moreover have "prefix seeds ?f" unfolding sd by (rule py_take_prefix)
  ultimately show ?thesis using cd sd by blast
qed

theorem seeds_are_interacted_witness:
  "seed_set stable_argsort example_recommender ''space opera'' example_config = Inr [0, 2]
   \<and> set [0, 2] \<subseteq> interacted_items example_recommender"
  using seeds_are_interacted [of stable_argsort example_recommender "''space opera''"
      example_config "[0, 2]"] example_seed_set [of "''space opera''"]
  by simp

text \<open>
  C7. An interactions table without the \<open>interaction\<close> column passes the schema check of
  \<open>preprocess\<close>: the check looks for columns beyond the three required ones, not for
  missing ones, and the missing column surfaces as a \<open>KeyError\<close> when the sparse matrix is
  built, not as \<open>ColumnNotFoundError\<close>.
\<close>

theorem preprocess_missing_column:
  "preprocess missing_interaction_column = Inl KeyError
   \<and> ''interaction'' \<notin> set (intxn_columns missing_interaction_column)"
  by (simp add: preprocess_def read_csv_index_id_def column_def missing_interaction_column_def)

text \<open>
  C8, as stated, fails on the empty catalogue: \<open>interacted_items\<close> is empty and
  \<open>recommend\<close> raises \<open>ValueError\<close>, because the distance computation refuses a matrix
  without rows.
\<close>

theorem empty_catalogue_counterexample:
  "interacted_items empty_store = {}
   \<and> seed_set stable_argsort empty_store ''space opera'' example_config = Inl ValueError
   \<and> recommend stable_argsort empty_store ''space opera'' example_config = Inl ValueError"
  by (simp add: recommend_def recommend_ids_def seed_set_def semantic_candidates_def
      find_nearest_def euclidean_distances_def check_pairwise_arrays_def array2d_def
      empty_store_def)

text \<open>
  C8, amended. With an empty \<open>interacted_items\<close> and a semantic matrix that the distance
  computation accepts for the encoded query, the seed set is empty and \<open>recommend\<close>
  returns the empty list. On a valid store and with such a query \<open>recommend\<close> returns a
  list for every configuration, whatever the number of seeds, neighbours or
  recommendations that remain; the shortfall only shortens the result.
\<close>

theorem shortfalls_never_raise:
  "(interacted_items R = {} \<and> check_pairwise_arrays [encoder R query] (embeds_use R) \<longrightarrow>
      seed_set srt R query c = Inr [] \<and> recommend srt R query c = Inr [])
   \<and> (argsort_contract srt \<and> valid_store R
        \<and> check_pairwise_arrays [encoder R query] (embeds_use R) \<longrightarrow>
        (\<exists>seeds ids ts. seed_set srt R query c = Inr seeds
           \<and> recommend_ids srt R query c = Inr ids
           \<and> recommend srt R query c = Inr ts
           \<and> length ts = length ids
           \<and> (0 \<le> K_use c \<longrightarrow> int (length seeds) \<le> K_use c)
           \<and> (0 \<le> n_to_recommend c \<longrightarrow> int (length ts) \<le> n_to_recommend c)))"
proof (intro conjI impI)
  assume e: "interacted_items R = {} \<and> check_pairwise_arrays [encoder R query] (embeds_use R)"
  then show s: "seed_set srt R query c = Inr []"
    by (simp add: seed_set_value py_take_def)
  show "recommend srt R query c = Inr []"
    by (simp add: recommend_def recommend_ids_def s py_take_def)
next
  assume a: "argsort_contract srt \<and> valid_store R
        \<and> check_pairwise_arrays [encoder R query] (embeds_use R)"
  let ?n = "length (embeds_mf R)"
  obtain seeds where s: "seed_set srt R query c = Inr seeds"
    using a by (simp add: seed_set_value)
  have "set seeds \<subseteq> {..<?n}"
    using seed_set_range [of srt R query c seeds] a s by (simp add: valid_store_def)
  then obtain acc where l: "mf_loop srt R c seeds [] = Inr acc" and r: "set acc \<subseteq> {..<?n}"
    using mf_loop_total [of srt R seeds "[]" c] a by auto
  let ?ids = "py_take (n_to_recommend c) acc"
  have i: "recommend_ids srt R query c = Inr ?ids"
    by (simp add: recommend_ids_def s l)
  have "set ?ids \<subseteq> {..<?n}"
    using set_py_take_subset [of "n_to_recommend c" acc] r by blast
  moreover have "\<forall>i<?n. \<exists>t. items R i = Some [t]"
  proof (intro allI impI)
    fix i assume "i < ?n"
    then have "case items R i of None \<Rightarrow> False | Some row \<Rightarrow> length row = 1"
      using a by (simp add: valid_store_def list_all_iff)
    then show "\<exists>t. items R i = Some [t]"
      by (cases "items R i") (auto simp: length_Suc_conv)
  qed
  ultimately have "\<forall>i\<in>set ?ids. \<exists>t. items R i = Some [t]" by blast
  then obtain ts where t: "titles_of (items R) ?ids = Inr ts"
    using titles_of_total by blast
  then have rt: "recommend srt R query c = Inr ts"
    by (simp add: recommend_def i)
  have len: "length ts = length ?ids" using t by (rule titles_of_length)
  have "0 \<le> K_use c \<longrightarrow> int (length seeds) \<le> K_use c"
    using s a by (auto simp: seed_set_value intro: length_py_take_le)
  moreover have "0 \<le> n_to_recommend c \<longrightarrow> int (length ts) \<le> n_to_recommend c"
    using len by (simp add: length_py_take_le)
  ultimately show "\<exists>seeds ids ts. seed_set srt R query c = Inr seeds
           \<and> recommend_ids srt R query c = Inr ids
           \<and> recommend srt R query c = Inr ts
           \<and> length ts = length ids
           \<and> (0 \<le> K_use c \<longrightarrow> int (length seeds) \<le> K_use c)
           \<and> (0 \<le> n_to_recommend c \<longrightarrow> int (length ts) \<le> n_to_recommend c)"
    using s i rt len by blast
qed

theorem shortfalls_never_raise_witness:
  "interacted_items (example_recommender\<lparr>interacted_items := {}\<rparr>) = {}
   \<and> check_pairwise_arrays
        [encoder (example_recommender\<lparr>interacted_items := {}\<rparr>) ''space opera'']
        (embeds_use (example_recommender\<lparr>interacted_items := {}\<rparr>))
   \<and> recommend stable_argsort (example_recommender\<lparr>interacted_items := {}\<rparr>)
         ''space opera'' example_config = Inr []
   \<and> argsort_contract stable_argsort \<and> valid_store example_recommender
   \<and> check_pairwise_arrays [encoder example_recommender ''space opera'']
        (embeds_use example_recommender)
   \<and> recommend stable_argsort example_recommender ''space opera''
         (example_config\<lparr>n_to_recommend := 9\<rparr>) = Inr [''A'', ''D'', ''C'', ''F'']
   \<and> int (length [''A'', ''D'', ''C'', ''F''])
         \<le> n_to_recommend (example_config\<lparr>n_to_recommend := 9\<rparr>)"
proof -
  have "recommend stable_argsort example_recommender ''space opera''
         (example_config\<lparr>n_to_recommend := 9\<rparr>) = Inr [''A'', ''D'', ''C'', ''F'']"
    by (simp add: example_defs)
  moreover have "check_pairwise_arrays
        [encoder (example_recommender\<lparr>interacted_items := {}\<rparr>) ''space opera'']
        (embeds_use (example_recommender\<lparr>interacted_items := {}\<rparr>))"
    using example_query_width [of "''space opera''"] by simp
  ultimately show ?thesis
    using shortfalls_never_raise [of "example_recommender\<lparr>interacted_items := {}\<rparr>"
        "''space opera''" stable_argsort example_config]
      shortfalls_never_raise [of example_recommender "''space opera''"
        stable_argsort "example_config\<lparr>n_to_recommend := 9\<rparr>"]
      stable_argsort_contract example_valid example_query_width [of "''space opera''"]
    by simp
qed

text \<open>
  C9. With \<open>K_use\<close> and the multiplier not negative, a larger \<open>use_buffer_multiplier\<close>
  (everything else fixed) never gives fewer seeds: the seed set of the smaller multiplier
  is a prefix of the seed set of the larger one. When the distance computation refuses
  the semantic matrix, it does so for both multipliers.
\<close>

theorem seeds_monotone_in_buffer:
  assumes "0 \<le> K_use c" "0 \<le> use_buffer_multiplier c" "use_buffer_multiplier c \<le> m"
  shows "(\<exists>s s'. seed_set srt R query c = Inr s
           \<and> seed_set srt R query (c\<lparr>use_buffer_multiplier := m\<rparr>) = Inr s'
           \<and> prefix s s' \<and> length s \<le> length s')
       \<or> (seed_set srt R query c = Inl ValueError
           \<and> seed_set srt R query (c\<lparr>use_buffer_multiplier := m\<rparr>) = Inl ValueError)"
proof (cases "check_pairwise_arrays [encoder R query] (embeds_use R)")
  case True
  let ?p = "srt (map (euclidean_distance (encoder R query)) (embeds_use R))"
  let ?P = "\<lambda>item_id. item_id \<in> interacted_items R"
  let ?s = "py_take (K_use c) (filter ?P (py_take (K_use c * use_buffer_multiplier c) ?p))"
  let ?s' = "py_take (K_use c) (filter ?P (py_take (K_use c * m) ?p))"
  have "0 \<le> K_use c * use_buffer_multiplier c" using assms by simp
  moreover have "K_use c * use_buffer_multiplier c \<le> K_use c * m"
    using assms by (simp add: mult_left_mono)
  ultimately have "prefix (py_take (K_use c * use_buffer_multiplier c) ?p) (py_take (K_use c * m) ?p)"
    by (rule py_take_mono)
  then have "prefix ?s ?s'"
    using assms(1) by (simp add: py_take_def prefix_filter prefix_take_mono)
  moreover from this have "length ?s \<le> length ?s'" by (rule prefix_length_le)
  moreover have "seed_set srt R query c = Inr ?s"
    using True by (simp add: seed_set_value)
  moreover have "seed_set srt R query (c\<lparr>use_buffer_multiplier := m\<rparr>) = Inr ?s'"
    using True by (simp add: seed_set_value)
  ultimately show ?thesis by blast
next
  case False
  then show ?thesis by (simp add: seed_set_refused)
qed

theorem seeds_monotone_in_buffer_witness:
  "0 \<le> K_use (example_config\<lparr>use_buffer_multiplier := 1\<rparr>)
   \<and> 0 \<le> use_buffer_multiplier (example_config\<lparr>use_buffer_multiplier := 1\<rparr>)
   \<and> use_buffer_multiplier (example_config\<lparr>use_buffer_multiplier := 1\<rparr>) \<le> 3
   \<and> seed_set stable_argsort example_recommender ''space opera''
        (example_config\<lparr>use_buffer_multiplier := 1\<rparr>) = Inr [0]
   \<and> seed_set stable_argsort example_recommender ''space opera''
        (example_config\<lparr>use_buffer_multiplier := 1, use_buffer_multiplier := 3\<rparr>) = Inr [0, 2]
   \<and> length [0 :: nat] \<le> length [0, 2 :: nat]"
  using seeds_monotone_in_buffer [of "example_config\<lparr>use_buffer_multiplier := 1\<rparr>" 3
      stable_argsort example_recommender "''space opera''"]
  by (simp add: example_defs)




end
